theory Spec2Isabelle
  imports Complex_Main "HOL-Library.Word"
begin

section \<open>Data model of the media stream handler\<close>

text \<open>
  A JavaScript string is a sequence of UTF-16 code units; \<open>.length\<close> counts code units
  and \<open>.slice\<close> cuts between them.  A Node \<open>Buffer\<close> is a sequence of bytes.
\<close>

type_synonym jsstring = "16 word list"
type_synonym buffer = "8 word list"

definition lit :: "string \<Rightarrow> jsstring" where
  "lit cs = map (\<lambda>c. of_nat (of_char c)) cs"

text \<open>JavaScript truthiness of a value that is a string, \<open>null\<close> or \<open>undefined\<close>.\<close>

fun truthy :: "jsstring option \<Rightarrow> bool" where
  "truthy None = False"
| "truthy (Some t) = (t \<noteq> [])"

text \<open>\<open>str.slice(i, j)\<close> for \<open>0 \<le> i \<le> j\<close>: the end is clamped to the length.\<close>

definition slice :: "jsstring \<Rightarrow> nat \<Rightarrow> nat \<Rightarrow> jsstring" where
  "slice str i j = take (j - i) (drop i str)"

subsection \<open>\<open>Buffer.toString("base64")\<close>\<close>

definition base64_alphabet :: jsstring where
  "base64_alphabet =
     lit ''ABCDEFGHIJKLMNOPQRSTUVWXYZabcdefghijklmnopqrstuvwxyz0123456789+/''"

definition sextet :: "nat \<Rightarrow> 16 word" where
  "sextet n = base64_alphabet ! (n mod 64)"

definition pad :: "16 word" where
  "pad = 61"

fun base64 :: "buffer \<Rightarrow> jsstring" where
  "base64 [] = []"
| "base64 [a] =
     (let n = unat a * 65536
      in [sextet (n div 262144), sextet (n div 4096), pad, pad])"
| "base64 [a, b] =
     (let n = unat a * 65536 + unat b * 256
      in [sextet (n div 262144), sextet (n div 4096), sextet (n div 64), pad])"
| "base64 (a # b # c # rest) =
     (let n = unat a * 65536 + unat b * 256 + unat c
      in [sextet (n div 262144), sextet (n div 4096), sextet (n div 64), sextet n]
         @ base64 rest)"

subsection \<open>Messages sent over the transport\<close>

text \<open>
  The objects that the handler serialises with \<open>JSON.stringify\<close> and hands to
  \<open>ws.send\<close>.  The first argument is the \<open>streamSid\<close> field.
\<close>

datatype ws_msg =
    Media "jsstring option" jsstring
  | Mark "jsstring option" jsstring
  | Clear "jsstring option"

fun is_media :: "ws_msg \<Rightarrow> bool" where
  "is_media (Media sid p) = True"
| "is_media m = False"

fun is_mark :: "ws_msg \<Rightarrow> bool" where
  "is_mark (Mark sid n) = True"
| "is_mark m = False"

definition audio_complete :: jsstring where
  "audio_complete = lit ''audio_complete''"

subsection \<open>The session object\<close>

datatype role = User | Model

text \<open>
  The fields of the object built by \<open>createSession\<close> (its \<open>context\<close> is named
  \<open>sessionContext\<close> here).  The socket \<open>ws\<close> is represented by the messages handed to
  \<open>ws.send\<close> so far, oldest first; the socket is taken to accept every message, a
  \<open>send\<close> that raises is not modelled.  The recognizer stream \<open>sttStream\<close> is
  represented by the audio buffers handed to its \<open>send\<close> (\<open>None\<close> is \<open>null\<close>).  The
  last two fields are not fields of the JavaScript object:
  they record the requests made to the response generator (contents and system
  instruction) and to \<open>synthesizeTTS\<close> (text and voice).
\<close>

record session =
  callId :: jsstring
  sessionContext :: "(role \<times> jsstring) list"
  sttStream :: "buffer list option"
  agentPrompt :: jsstring
  agentVoiceId :: jsstring
  ws :: "ws_msg list"
  streamSid :: "jsstring option"
  isReady :: bool
  audioQueue :: "buffer list"
  isAISpeaking :: bool
  currentAudioChunks :: "buffer list"
  userSpeechDetected :: bool
  interimTranscript :: jsstring
  silenceTimer :: "nat option"
  conversationBuffer :: "jsstring list"
  greetingMessage :: "jsstring option"
  llmRequests :: "((role \<times> jsstring) list \<times> jsstring) list"
  ttsRequests :: "(jsstring \<times> jsstring) list"

definition ws_send :: "session \<Rightarrow> ws_msg \<Rightarrow> session" where
  "ws_send s m = s\<lparr>ws := ws s @ [m]\<rparr>"

section \<open>Chunked outbound delivery\<close>

definition chunkSize :: nat where
  "chunkSize = 214"

text \<open>
  The \<open>for\<close> loop of \<open>sendAudioToTwilio\<close>.  The body may leave the whole function
  (\<open>Return\<close>) or the loop may run out (\<open>Fallthrough\<close>).
\<close>

datatype 'a flow = Return 'a | Fallthrough 'a

text \<open>The state when the loop is over, however it was left.\<close>

fun state_of :: "'a flow \<Rightarrow> 'a" where
  "state_of (Return s) = s"
| "state_of (Fallthrough s) = s"

function chunk_loop :: "session \<Rightarrow> jsstring \<Rightarrow> nat \<Rightarrow> session flow" where
  "chunk_loop s base64Audio i =
     (if i < length base64Audio then
        if userSpeechDetected s then Return (s\<lparr>isAISpeaking := False\<rparr>)
        else chunk_loop
               (ws_send s (Media (streamSid s) (slice base64Audio i (i + chunkSize))))
               base64Audio (i + chunkSize)
      else Fallthrough s)"
  by pat_completeness auto
termination
  by (relation "measure (\<lambda>(s, b, i). length b - i)") (auto simp: chunkSize_def)

definition sendAudioToTwilio :: "session \<Rightarrow> buffer \<Rightarrow> session" where
  "sendAudioToTwilio s audioBuffer =
     (if \<not> isReady s \<or> \<not> truthy (streamSid s)
      then s\<lparr>audioQueue := audioQueue s @ [audioBuffer]\<rparr>
      else case chunk_loop s (base64 audioBuffer) 0 of
             Return s' \<Rightarrow> s'
           | Fallthrough s' \<Rightarrow> ws_send s' (Mark (streamSid s') audio_complete))"

text \<open>
  The payloads that the loop cuts from offset \<open>i\<close> on when nothing stops it; used to
  state what a delivery puts on the wire.
\<close>

function frames :: "jsstring \<Rightarrow> nat \<Rightarrow> jsstring list" where
  "frames b i =
     (if i < length b then slice b i (i + chunkSize) # frames b (i + chunkSize) else [])"
  by pat_completeness auto
termination
  by (relation "measure (\<lambda>(b, i). length b - i)") (auto simp: chunkSize_def)

definition clip_messages :: "jsstring option \<Rightarrow> buffer \<Rightarrow> ws_msg list" where
  "clip_messages sid a = map (Media sid) (frames (base64 a) 0) @ [Mark sid audio_complete]"

section \<open>Session registry\<close>

type_synonym registry = "jsstring \<rightharpoonup> session"

definition default_voice :: jsstring where
  "default_voice = lit ''21m00Tcm4TlvDq8ikWAM''"

text \<open>
  \<open>createSession(callId, agentPrompt, agentVoiceId, ws)\<close>; \<open>sock\<close> is what has been
  sent over the socket so far.
\<close>

definition createSession ::
  "registry \<Rightarrow> jsstring \<Rightarrow> jsstring \<Rightarrow> jsstring option \<Rightarrow> ws_msg list \<Rightarrow> session \<times> registry"
where
  "createSession sessions cid prompt voice sock =
     (let session =
        \<lparr> callId = cid,
          sessionContext = [],
          sttStream = None,
          agentPrompt = prompt,
          agentVoiceId = (case voice of None \<Rightarrow> default_voice
                          | Some v \<Rightarrow> if v = [] then default_voice else v),
          ws = sock,
          streamSid = None,
          isReady = False,
          audioQueue = [],
          isAISpeaking = False,
          currentAudioChunks = [],
          userSpeechDetected = False,
          interimTranscript = [],
          silenceTimer = None,
          conversationBuffer = [],
          greetingMessage = None,
          llmRequests = [],
          ttsRequests = [] \<rparr>
      in (session, sessions(cid \<mapsto> session)))"

text \<open>
  \<open>endSession\<close> returns the registry together with the calls it made on the
  resources of the session, in order.
\<close>

datatype effect = SttFinish jsstring | SttRemoveAllListeners jsstring | ClearTimeout nat

definition endSession :: "registry \<Rightarrow> jsstring \<Rightarrow> registry \<times> effect list" where
  "endSession sessions cid =
     (case sessions cid of
        None \<Rightarrow> (sessions, [])
      | Some session \<Rightarrow>
          (sessions(cid := None),
           (if sttStream session \<noteq> None
            then [SttFinish (callId session), SttRemoveAllListeners (callId session)]
            else [])
           @ (case silenceTimer session of None \<Rightarrow> [] | Some t \<Rightarrow> [ClearTimeout t])))"

definition appendToContext :: "session \<Rightarrow> jsstring \<Rightarrow> role \<Rightarrow> session" where
  "appendToContext s text r = s\<lparr>sessionContext := sessionContext s @ [(r, text)]\<rparr>"

section \<open>Interruption and the handlers that run without waiting\<close>

definition handleInterruption :: "session \<Rightarrow> session" where
  "handleInterruption s =
     (let s1 = s\<lparr>isAISpeaking := False, currentAudioChunks := []\<rparr>;
          s2 = ws_send s1 (Clear (streamSid s1))
      in s2\<lparr>userSpeechDetected := True\<rparr>)"

text \<open>
  \<open>String.prototype.trim\<close> removes the code units of ECMAScript's \<open>WhiteSpace\<close> and
  \<open>LineTerminator\<close> from both ends.
\<close>

definition js_whitespace :: "16 word \<Rightarrow> bool" where
  "js_whitespace c =
     (c = 0x9 \<or> c = 0xA \<or> c = 0xB \<or> c = 0xC \<or> c = 0xD \<or> c = 0x20 \<or> c = 0xA0
      \<or> c = 0x1680 \<or> (0x2000 \<le> c \<and> c \<le> 0x200A) \<or> c = 0x2028 \<or> c = 0x2029
      \<or> c = 0x202F \<or> c = 0x205F \<or> c = 0x3000 \<or> c = 0xFEFF)"

definition trim :: "jsstring \<Rightarrow> jsstring" where
  "trim t = rev (dropWhile js_whitespace (rev (dropWhile js_whitespace t)))"

text \<open>The branch of the transcript handler for \<open>!transcriptData.is_final\<close>.\<close>

definition interim_transcript :: "session \<Rightarrow> jsstring \<Rightarrow> session" where
  "interim_transcript s t =
     (let s1 = s\<lparr>interimTranscript := t\<rparr>
      in if isAISpeaking s1 \<and> length t > 3 then handleInterruption s1 else s1)"

text \<open>
  The \<open>media\<close> branch of the message handler, for an existing session.
  \<open>audioBuffer\<close> is what \<open>Buffer.from(data.media.payload, "base64")\<close> returned.
\<close>

definition media_event :: "session \<Rightarrow> jsstring option \<Rightarrow> buffer \<Rightarrow> session" where
  "media_event s payload audioBuffer =
     (case sttStream s of
        None \<Rightarrow> s
      | Some sent \<Rightarrow>
          if truthy payload then
            if length audioBuffer > 0
            then s\<lparr>sttStream := Some (sent @ [audioBuffer]), userSpeechDetected := True\<rparr>
            else s
          else s)"

text \<open>The same branch on the handler's variable \<open>session\<close>, which is \<open>null\<close> before
  the start event.\<close>

definition ws_message_media ::
  "session option \<Rightarrow> jsstring option \<Rightarrow> buffer \<Rightarrow> session option" where
  "ws_message_media sess payload audioBuffer =
     (case sess of None \<Rightarrow> None | Some s \<Rightarrow> Some (media_event s payload audioBuffer))"

text \<open>The \<open>mark\<close> branch; the argument is \<open>data.mark?.name\<close>.\<close>

definition mark_event :: "session \<Rightarrow> jsstring option \<Rightarrow> session" where
  "mark_event s name =
     (if name = Some audio_complete
      then s\<lparr>isAISpeaking := False, currentAudioChunks := []\<rparr>
      else s)"

text \<open>
  While a handler waits for the response generator or for the synthesizer, other events
  of the session are handled.  Those whose handlers finish without waiting themselves
  are inbound media, mark acknowledgements, and transcripts that are interim or blank.
  (A final transcript with text starts a handler that waits itself; see
  \<open>final_arrives\<close> below.)
\<close>

datatype interleaved =
    MediaEvent "jsstring option" buffer
  | MarkEvent "jsstring option"
  | InterimEvent "jsstring option"

fun handle_interleaved :: "session \<Rightarrow> interleaved \<Rightarrow> session" where
  "handle_interleaved s (MediaEvent payload audioBuffer) = media_event s payload audioBuffer"
| "handle_interleaved s (MarkEvent name) = mark_event s name"
| "handle_interleaved s (InterimEvent None) = s"
| "handle_interleaved s (InterimEvent (Some t)) =
     (if trim t = [] then s else interim_transcript s t)"

definition during :: "session \<Rightarrow> interleaved list \<Rightarrow> session" where
  "during s evs = foldl handle_interleaved s evs"

section \<open>Handlers that wait for the generator and the synthesizer\<close>

text \<open>
  What an \<open>await\<close> yields is an argument of the model: the outcome of
  \<open>llmService.generateContent\<close> (an error, or the text of the response), the result of
  \<open>synthesizeTTS\<close> (a buffer, or \<open>null\<close> on every failure), and the events handled
  while each of them was pending.
\<close>

datatype llm_error = GenerateContentFailed

record awaits =
  llmResult :: "llm_error + jsstring"
  llmDuring :: "interleaved list"
  ttsResult :: "buffer option"
  ttsDuring :: "interleaved list"

definition fallback_reply :: jsstring where
  "fallback_reply =
     lit (''I apologize, I'' @ [CHR 0x27] @ ''m having trouble processing that right now.'')"

text \<open>
  \<open>speakWithInterruption\<close> up to its \<open>await this.synthesizeTTS(text, session.agentVoiceId)\<close>,
  and from the result of that call to its end.
\<close>

definition speak_begin :: "session \<Rightarrow> jsstring \<Rightarrow> session" where
  "speak_begin s text =
     (let s1 = s\<lparr>isAISpeaking := True, userSpeechDetected := False\<rparr>
      in s1\<lparr>ttsRequests := ttsRequests s1 @ [(text, agentVoiceId s1)]\<rparr>)"

definition speak_resume :: "session \<Rightarrow> buffer option \<Rightarrow> session" where
  "speak_resume s ttsAudio =
     (case ttsAudio of
        None \<Rightarrow> s\<lparr>isAISpeaking := False\<rparr>
      | Some a \<Rightarrow>
          (let s1 = s\<lparr>currentAudioChunks := currentAudioChunks s @ [a]\<rparr>
           in if userSpeechDetected s1 then s1\<lparr>isAISpeaking := False\<rparr>
              else sendAudioToTwilio s1 a))"

definition speakWithInterruption ::
  "session \<Rightarrow> jsstring \<Rightarrow> buffer option \<Rightarrow> interleaved list \<Rightarrow> session" where
  "speakWithInterruption s text ttsAudio evs =
     speak_resume (during (speak_begin s text) evs) ttsAudio"

text \<open>What \<open>callLLM\<close> returns for an outcome of the generator: its \<open>try\<close> returns
  the text, its \<open>catch\<close> the fixed string.\<close>

definition reply_of :: "llm_error + jsstring \<Rightarrow> jsstring" where
  "reply_of result = (case result of Inr text \<Rightarrow> text | Inl err \<Rightarrow> fallback_reply)"

text \<open>\<open>callLLM\<close> up to its \<open>await this.llmService.generateContent(...)\<close>, and as a whole.\<close>

definition callLLM_begin :: "session \<Rightarrow> session" where
  "callLLM_begin s = s\<lparr>llmRequests := llmRequests s @ [(sessionContext s, agentPrompt s)]\<rparr>"

definition callLLM ::
  "session \<Rightarrow> llm_error + jsstring \<Rightarrow> interleaved list \<Rightarrow> session \<times> jsstring" where
  "callLLM s result evs = (during (callLLM_begin s) evs, reply_of result)"

definition handleUserMessage :: "session \<Rightarrow> jsstring \<Rightarrow> awaits \<Rightarrow> session" where
  "handleUserMessage s userMessage aw =
     (let (s1, llmResponse) = callLLM s (llmResult aw) (llmDuring aw);
          s2 = appendToContext s1 llmResponse Model
      in speakWithInterruption s2 llmResponse (ttsResult aw) (ttsDuring aw))"

text \<open>The argument of the recognizer's \<open>Transcript\<close> event, as far as the handler reads it.\<close>

record transcript_data =
  transcript :: "jsstring option"
  is_final :: bool

definition on_transcript :: "session \<Rightarrow> transcript_data \<Rightarrow> awaits \<Rightarrow> session" where
  "on_transcript s td aw =
     (case transcript td of
        None \<Rightarrow> s
      | Some t \<Rightarrow>
          if trim t = [] then s
          else if \<not> is_final td then interim_transcript s t
          else
            (let s1 = (if silenceTimer s \<noteq> None then s\<lparr>silenceTimer := None\<rparr> else s);
                 s2 = appendToContext s1 t User
             in handleUserMessage s2 t aw))"

text \<open>Transcript events handled one after the other, each handler finishing before the
  next event is taken.\<close>

definition on_transcripts :: "session \<Rightarrow> (transcript_data \<times> awaits) list \<Rightarrow> session" where
  "on_transcripts s evs = foldl (\<lambda>s (td, aw). on_transcript s td aw) s evs"

text \<open>
  Nothing in the handler keeps a second final transcript from being handled while the
  first one waits: the recognizer's emitter calls the \<open>async\<close> handler and goes on.  The
  runs of the handler for a final transcript \<open>t\<close> then interleave at their waits.  The
  pieces between the waits are: from the arrival of \<open>t\<close> to the wait for the generator;
  from the generator's outcome to the wait for the synthesizer; and \<open>speak_resume\<close> from
  the synthesizer's result to the end.
\<close>

definition final_arrives :: "session \<Rightarrow> jsstring \<Rightarrow> session" where
  "final_arrives s t =
     (let s1 = (if silenceTimer s \<noteq> None then s\<lparr>silenceTimer := None\<rparr> else s);
          s2 = appendToContext s1 t User
      in callLLM_begin s2)"

definition reply_arrives :: "session \<Rightarrow> llm_error + jsstring \<Rightarrow> session" where
  "reply_arrives s result =
     (let llmResponse = reply_of result;
          s1 = appendToContext s llmResponse Model
      in speak_begin s1 llmResponse)"

section \<open>The revision with a queue drain on the start event\<close>

text \<open>
  One revision of the handler creates the session when the socket connects and, on the
  start event, sends what \<open>sendAudioToTwilio\<close> had queued.  Its \<open>sendAudioToTwilio\<close>
  has no check inside the loop.  It uses the session fields \<open>ws\<close>, \<open>streamSid\<close>,
  \<open>isReady\<close> and \<open>audioQueue\<close> only.
\<close>

function chunk_loop_p1 :: "session \<Rightarrow> jsstring \<Rightarrow> nat \<Rightarrow> session" where
  "chunk_loop_p1 s base64Audio i =
     (if i < length base64Audio then
        chunk_loop_p1
          (ws_send s (Media (streamSid s) (slice base64Audio i (i + chunkSize))))
          base64Audio (i + chunkSize)
      else s)"
  by pat_completeness auto
termination
  by (relation "measure (\<lambda>(s, b, i). length b - i)") (auto simp: chunkSize_def)

definition sendAudioToTwilio_p1 :: "session \<Rightarrow> buffer \<Rightarrow> session" where
  "sendAudioToTwilio_p1 s audioBuffer =
     (if \<not> isReady s \<or> \<not> truthy (streamSid s)
      then s\<lparr>audioQueue := audioQueue s @ [audioBuffer]\<rparr>
      else (let s' = chunk_loop_p1 s (base64 audioBuffer) 0
            in ws_send s' (Mark (streamSid s') audio_complete)))"

text \<open>
  \<open>for (const audioBuffer of session.audioQueue)\<close> walks the live array: an element
  pushed by the body is visited too, so the loop need not end.
\<close>

partial_function (option) drain_queue_p1 :: "session \<Rightarrow> nat \<Rightarrow> session option" where
  "drain_queue_p1 s k =
     (if k < length (audioQueue s)
      then drain_queue_p1 (sendAudioToTwilio_p1 s (audioQueue s ! k)) (Suc k)
      else Some s)"

text \<open>The start branch of that revision; the argument is \<open>data.start.streamSid\<close>.
  \<open>None\<close> as result: the handler does not return.\<close>

definition start_event_p1 :: "session \<Rightarrow> jsstring option \<Rightarrow> session option" where
  "start_event_p1 s sid =
     (let s1 = s\<lparr>streamSid := sid, isReady := True\<rparr>
      in if length (audioQueue s1) > 0
         then (case drain_queue_p1 s1 0 of
                 None \<Rightarrow> None
               | Some s2 \<Rightarrow> Some (s2\<lparr>audioQueue := []\<rparr>))
         else Some s1)"

section \<open>A concrete session\<close>

text \<open>
  A session as \<open>createSession\<close> builds it, and as the start branch leaves it: then
  \<open>greetingMessage\<close>, \<open>streamSid\<close>, \<open>isReady\<close> and \<open>sttStream\<close> are assigned.
\<close>

definition fresh_session :: session where
  "fresh_session =
     fst (createSession Map.empty (lit ''CA1'') (lit ''You are a helpful AI assistant.'')
            None [])"

definition started_session :: session where
  "started_session =
     fresh_session
       \<lparr> greetingMessage := Some (lit ''Hello! How can I help you today?''),
         streamSid := Some (lit ''MZ1''),
         isReady := True,
         sttStream := Some [] \<rparr>"

text \<open>The same session with the caller-speech flag set, and while the agent speaks.\<close>

definition flagged_session :: session where
  "flagged_session = started_session\<lparr>userSpeechDetected := True\<rparr>"

definition speaking_session :: session where
  "speaking_session = started_session\<lparr>isAISpeaking := True\<rparr>"

text \<open>A session of the revision with the queue drain, before its start event, after two
  clips were handed to \<open>sendAudioToTwilio\<close>.\<close>

definition queued_session :: session where
  "queued_session =
     sendAudioToTwilio_p1 (sendAudioToTwilio_p1 fresh_session [77, 97, 110]) [77]"

text \<open>A generator that answers and a synthesizer that returns a clip, with inbound audio
  handled while the synthesis is pending.\<close>

definition answering_awaits :: awaits where
  "answering_awaits =
     \<lparr> llmResult = Inr (lit ''Sure.''), llmDuring = [],
       ttsResult = Some [77, 97, 110], ttsDuring = [MediaEvent (Some (lit ''/w=='')) [255]] \<rparr>"

text \<open>A generator that fails and a synthesizer that returns \<open>null\<close>, nothing in between.\<close>

definition failing_awaits :: awaits where
  "failing_awaits =
     \<lparr> llmResult = Inl GenerateContentFailed, llmDuring = [],
       ttsResult = None, ttsDuring = [] \<rparr>"

section \<open>Arithmetic of the frame count\<close>

declare frames.simps [simp del]
declare chunk_loop.simps [simp del]
declare chunk_loop_p1.simps [simp del]

lemma step_div:
  assumes "i < (n::nat)"
  shows "(n - i + 213) div 214 = Suc ((n - (i + 214) + 213) div 214)"
proof (cases "214 \<le> n - i")
  case True
  then have "n - i + 213 = (n - (i + 214) + 213) + 214" by simp
  then show ?thesis by (simp only: div_add_self2)
next
  case False
  with assms have "214 * 1 \<le> n - i + 213" and "n - i + 213 < 214 * Suc 1" by simp_all
  then have "(n - i + 213) div 214 = 1" by (rule div_nat_eqI)
  with False show ?thesis by simp
qed

lemma concat_frames: "concat (frames b i) = drop i b"
proof (induction b i rule: frames.induct)
  case (1 b i)
  show ?case
  proof (cases "i < length b")
    case True
    have "take chunkSize (drop i b) @ drop (i + chunkSize) b = drop i b"
      by (metis add.commute append_take_drop_id drop_drop)
    with True 1 show ?thesis
      by (subst frames.simps) (simp add: slice_def)
  next
    case False
    then show ?thesis by (subst frames.simps) simp
  qed
qed

lemma length_frames: "length (frames b i) = (length b - i + 213) div 214"
proof (induction b i rule: frames.induct)
  case (1 b i)
  show ?case
  proof (cases "i < length b")
    case True
    with 1 have "length (frames b i) = Suc ((length b - (i + 214) + 213) div 214)"
      by (subst frames.simps) (simp add: chunkSize_def)
    also have "\<dots> = (length b - i + 213) div 214"
      using True by (rule step_div [symmetric])
    finally show ?thesis .
  next
    case False
    then show ?thesis by (subst frames.simps) simp
  qed
qed

lemma frames_bound: "p \<in> set (frames b i) \<Longrightarrow> length p \<le> 214 \<and> p \<noteq> []"
proof (induction b i rule: frames.induct)
  case (1 b i)
  show ?case
  proof (cases "i < length b")
    case True
    with 1 show ?thesis
      by (subst (asm) (2) frames.simps) (auto simp: slice_def chunkSize_def)
  next
    case False
    with 1 show ?thesis by (subst (asm) (2) frames.simps) simp
  qed
qed

lemma ceil214: "int ((n + 213) div 214) = \<lceil>real n / 214\<rceil>"
proof -
  have "\<lceil>real n / 214\<rceil> = \<lceil>of_int (int n) / (of_int 214 :: real)\<rceil>" by simp
  also have "\<dots> = - (- int n div 214)" by (rule ceiling_divide_eq_div)
  also have "\<dots> = int ((n + 213) div 214)" by (simp add: zdiv_int)
  finally show ?thesis by simp
qed

section \<open>The delivery loop\<close>

lemma chunk_loop_runs:
  "\<not> userSpeechDetected s \<Longrightarrow>
   chunk_loop s b i = Fallthrough (s\<lparr>ws := ws s @ map (Media (streamSid s)) (frames b i)\<rparr>)"
proof (induction s b i rule: chunk_loop.induct)
  case (1 s b i)
  show ?case
  proof (cases "i < length b")
    case True
    with 1 show ?thesis
      by (subst chunk_loop.simps, subst frames.simps) (simp add: ws_send_def)
  next
    case False
    then show ?thesis
      by (subst chunk_loop.simps, subst frames.simps) simp
  qed
qed

lemma chunk_loop_stops:
  "userSpeechDetected s \<Longrightarrow>
   chunk_loop s b i = (if i < length b then Return (s\<lparr>isAISpeaking := False\<rparr>) else Fallthrough s)"
  by (subst chunk_loop.simps) simp

lemma send_unready:
  "\<not> isReady s \<or> \<not> truthy (streamSid s) \<Longrightarrow>
   sendAudioToTwilio s a = s\<lparr>audioQueue := audioQueue s @ [a]\<rparr>"
  by (auto simp: sendAudioToTwilio_def)

lemma send_ready_clear:
  "isReady s \<Longrightarrow> truthy (streamSid s) \<Longrightarrow> \<not> userSpeechDetected s \<Longrightarrow>
   sendAudioToTwilio s a = s\<lparr>ws := ws s @ clip_messages (streamSid s) a\<rparr>"
  by (simp add: sendAudioToTwilio_def chunk_loop_runs clip_messages_def ws_send_def)

lemma send_ready_flagged:
  "isReady s \<Longrightarrow> truthy (streamSid s) \<Longrightarrow> userSpeechDetected s \<Longrightarrow>
   sendAudioToTwilio s a =
     (if base64 a \<noteq> [] then s\<lparr>isAISpeaking := False\<rparr>
      else s\<lparr>ws := ws s @ [Mark (streamSid s) audio_complete]\<rparr>)"
  by (simp add: sendAudioToTwilio_def chunk_loop_stops ws_send_def)

section \<open>The concrete sessions\<close>

lemma started_fields:
  "isReady started_session" "streamSid started_session = Some (lit ''MZ1'')"
  "\<not> userSpeechDetected started_session" "ws started_session = []"
  "\<not> isAISpeaking started_session" "sttStream started_session = Some []"
  "sessionContext started_session = []" "audioQueue started_session = []"
  "llmRequests started_session = []" "ttsRequests started_session = []"
  "agentVoiceId started_session = default_voice"
  "agentPrompt started_session = lit ''You are a helpful AI assistant.''"
  by (simp_all add: started_session_def fresh_session_def createSession_def Let_def)

lemma speaking_fields:
  "isReady speaking_session" "streamSid speaking_session = Some (lit ''MZ1'')"
  "\<not> userSpeechDetected speaking_session" "ws speaking_session = []"
  "isAISpeaking speaking_session" "sttStream speaking_session = Some []"
  "sessionContext speaking_session = []" "llmRequests speaking_session = []"
  "agentPrompt speaking_session = lit ''You are a helpful AI assistant.''"
  by (simp_all add: speaking_session_def started_fields)

lemma lit_nonempty: "lit ''MZ1'' \<noteq> []"
  by (simp add: lit_def)

lemma filter_mark_media: "filter is_mark (map (Media sid) ps) = []"
  by (induction ps) simp_all

lemma flagged_fields:
  "isReady flagged_session" "streamSid flagged_session = Some (lit ''MZ1'')"
  "userSpeechDetected flagged_session" "ws flagged_session = []"
  by (simp_all add: flagged_session_def started_fields)

lemma base64_Man: "base64 [77, 97, 110] = lit ''TWFu''"
  by (simp add: lit_def sextet_def base64_alphabet_def)

section \<open>Events handled while a handler waits\<close>

lemma handle_interleaved_keeps:
  "sessionContext (handle_interleaved s e) = sessionContext s
   \<and> llmRequests (handle_interleaved s e) = llmRequests s
   \<and> ttsRequests (handle_interleaved s e) = ttsRequests s
   \<and> isReady (handle_interleaved s e) = isReady s
   \<and> streamSid (handle_interleaved s e) = streamSid s
   \<and> audioQueue (handle_interleaved s e) = audioQueue s
   \<and> agentVoiceId (handle_interleaved s e) = agentVoiceId s
   \<and> agentPrompt (handle_interleaved s e) = agentPrompt s"
proof (cases e)
  case (MediaEvent payload audioBuffer)
  then show ?thesis by (simp add: media_event_def split: option.splits)
next
  case (MarkEvent name)
  then show ?thesis by (simp add: mark_event_def)
next
  case (InterimEvent t)
  then show ?thesis
    by (cases t)
       (simp_all add: interim_transcript_def handleInterruption_def ws_send_def Let_def)
qed

lemma handle_interleaved_ws:
  "\<exists>cs. ws (handle_interleaved s e) = ws s @ cs
        \<and> filter is_media cs = [] \<and> filter is_mark cs = []"
proof (cases e)
  case (MediaEvent payload audioBuffer)
  then show ?thesis by (simp add: media_event_def split: option.splits)
next
  case (MarkEvent name)
  then show ?thesis by (simp add: mark_event_def)
next
  case (InterimEvent t)
  then show ?thesis
    by (cases t)
       (simp_all add: interim_transcript_def handleInterruption_def ws_send_def Let_def)
qed

lemma during_keeps:
  "sessionContext (during s evs) = sessionContext s
   \<and> llmRequests (during s evs) = llmRequests s
   \<and> ttsRequests (during s evs) = ttsRequests s
   \<and> isReady (during s evs) = isReady s
   \<and> streamSid (during s evs) = streamSid s
   \<and> audioQueue (during s evs) = audioQueue s
   \<and> agentVoiceId (during s evs) = agentVoiceId s
   \<and> agentPrompt (during s evs) = agentPrompt s"
  unfolding during_def
proof (induction evs arbitrary: s)
  case Nil
  show ?case by simp
next
  case (Cons e evs)
  show ?case
    using Cons.IH [of "handle_interleaved s e"] handle_interleaved_keeps [of s e]
    by simp
qed

lemma during_ws:
  "\<exists>cs. ws (during s evs) = ws s @ cs
        \<and> filter is_media cs = [] \<and> filter is_mark cs = []"
  unfolding during_def
proof (induction evs arbitrary: s)
  case Nil
  show ?case by simp
next
  case (Cons e evs)
  obtain cs where cs: "ws (handle_interleaved s e) = ws s @ cs"
    "filter is_media cs = []" "filter is_mark cs = []"
    using handle_interleaved_ws by blast
  obtain ds where ds:
    "ws (foldl handle_interleaved (handle_interleaved s e) evs)
       = ws (handle_interleaved s e) @ ds"
    "filter is_media ds = []" "filter is_mark ds = []"
    using Cons.IH by blast
  have "ws (foldl handle_interleaved s (e # evs)) = ws s @ (cs @ ds)"
    using cs ds by simp
  moreover have "filter is_media (cs @ ds) = []" "filter is_mark (cs @ ds) = []"
    using cs ds by simp_all
  ultimately show ?case by blast
qed

lemma send_keeps:
  "sessionContext (sendAudioToTwilio s a) = sessionContext s
   \<and> llmRequests (sendAudioToTwilio s a) = llmRequests s
   \<and> ttsRequests (sendAudioToTwilio s a) = ttsRequests s"
proof (cases "isReady s \<and> truthy (streamSid s)")
  case False
  then show ?thesis by (simp add: send_unready)
next
  case True
  then show ?thesis
    by (cases "userSpeechDetected s") (simp_all add: send_ready_clear send_ready_flagged)
qed

section \<open>What the waiting handlers change\<close>

lemma speak_keeps:
  "sessionContext (speakWithInterruption s text tts evs) = sessionContext s
   \<and> llmRequests (speakWithInterruption s text tts evs) = llmRequests s
   \<and> ttsRequests (speakWithInterruption s text tts evs)
       = ttsRequests s @ [(text, agentVoiceId s)]"
proof -
  define s2 where
    "s2 = s\<lparr>isAISpeaking := True, userSpeechDetected := False,
             ttsRequests := ttsRequests s @ [(text, agentVoiceId s)]\<rparr>"
  have k: "sessionContext (during s2 evs) = sessionContext s"
    "llmRequests (during s2 evs) = llmRequests s"
    "ttsRequests (during s2 evs) = ttsRequests s @ [(text, agentVoiceId s)]"
    using during_keeps [of s2 evs] by (simp_all add: s2_def)
  show ?thesis
  proof (cases tts)
    case None
    then show ?thesis
      using k by (simp add: speakWithInterruption_def speak_begin_def speak_resume_def
          Let_def s2_def)
  next
    case (Some a)
    then show ?thesis
      using k send_keeps [of "(during s2 evs)\<lparr>currentAudioChunks := currentAudioChunks (during s2 evs) @ [a]\<rparr>" a]
      by (simp add: speakWithInterruption_def speak_begin_def speak_resume_def Let_def s2_def)
  qed
qed

lemma handleUserMessage_keeps:
  "sessionContext (handleUserMessage s userMessage aw)
     = sessionContext s @ [(Model, reply_of (llmResult aw))]
   \<and> llmRequests (handleUserMessage s userMessage aw)
     = llmRequests s @ [(sessionContext s, agentPrompt s)]
   \<and> ttsRequests (handleUserMessage s userMessage aw)
     = ttsRequests s @ [(reply_of (llmResult aw), agentVoiceId s)]"
proof -
  define s1 where "s1 = s\<lparr>llmRequests := llmRequests s @ [(sessionContext s, agentPrompt s)]\<rparr>"
  define s2 where "s2 = appendToContext (during s1 (llmDuring aw)) (reply_of (llmResult aw)) Model"
  have h: "handleUserMessage s userMessage aw
             = speakWithInterruption s2 (reply_of (llmResult aw)) (ttsResult aw) (ttsDuring aw)"
    by (simp add: handleUserMessage_def callLLM_def callLLM_begin_def Let_def s1_def s2_def)
  have k: "sessionContext s2 = sessionContext s @ [(Model, reply_of (llmResult aw))]"
    "llmRequests s2 = llmRequests s @ [(sessionContext s, agentPrompt s)]"
    "ttsRequests s2 = ttsRequests s" "agentVoiceId s2 = agentVoiceId s"
    using during_keeps [of s1 "llmDuring aw"]
    by (simp_all add: s2_def s1_def appendToContext_def)
  show ?thesis
    using speak_keeps [of s2 "reply_of (llmResult aw)" "ttsResult aw" "ttsDuring aw"] k
    by (simp add: h)
qed

lemma interim_keeps:
  "sessionContext (interim_transcript s t) = sessionContext s
   \<and> llmRequests (interim_transcript s t) = llmRequests s
   \<and> ttsRequests (interim_transcript s t) = ttsRequests s"
  by (simp add: interim_transcript_def handleInterruption_def ws_send_def Let_def)

lemma final_transcript_effect:
  assumes "is_final td" and "transcript td = Some t" and "trim t \<noteq> []"
  shows "sessionContext (on_transcript s td aw)
           = sessionContext s @ [(User, t), (Model, reply_of (llmResult aw))]
       \<and> llmRequests (on_transcript s td aw)
           = llmRequests s @ [(sessionContext s @ [(User, t)], agentPrompt s)]
       \<and> ttsRequests (on_transcript s td aw)
           = ttsRequests s @ [(reply_of (llmResult aw), agentVoiceId s)]"
proof -
  define s2 where
    "s2 = appendToContext (if silenceTimer s \<noteq> None then s\<lparr>silenceTimer := None\<rparr> else s) t User"
  have h: "on_transcript s td aw = handleUserMessage s2 t aw"
    using assms by (simp add: on_transcript_def Let_def s2_def)
  have k: "sessionContext s2 = sessionContext s @ [(User, t)]" "llmRequests s2 = llmRequests s"
    "ttsRequests s2 = ttsRequests s" "agentVoiceId s2 = agentVoiceId s"
    "agentPrompt s2 = agentPrompt s"
    by (simp_all add: s2_def appendToContext_def)
  show ?thesis
    using handleUserMessage_keeps [of s2 t aw] k by (simp add: h)
qed

lemma trim_examples:
  "trim (lit ''Hi'') \<noteq> []" "trim (lit ''Yes'') \<noteq> []" "trim (lit ''hello there'') \<noteq> []"
  by (simp_all add: trim_def js_whitespace_def lit_def)

text \<open>A run of the handler for a final transcript is its three pieces, with the events
  handled during its two waits in between.\<close>

lemma on_transcript_pieces:
  assumes "is_final td" and "transcript td = Some t" and "trim t \<noteq> []"
  shows "on_transcript s td aw =
           speak_resume
             (during (reply_arrives (during (final_arrives s t) (llmDuring aw)) (llmResult aw))
                (ttsDuring aw))
             (ttsResult aw)"
  using assms
  by (simp add: on_transcript_def handleUserMessage_def callLLM_def speakWithInterruption_def
      final_arrives_def reply_arrives_def Let_def)

lemma final_arrives_effect:
  "sessionContext (final_arrives s t) = sessionContext s @ [(User, t)]
   \<and> llmRequests (final_arrives s t)
       = llmRequests s @ [(sessionContext s @ [(User, t)], agentPrompt s)]
   \<and> ttsRequests (final_arrives s t) = ttsRequests s"
  by (simp add: final_arrives_def callLLM_begin_def appendToContext_def Let_def)

lemma reply_arrives_effect:
  "sessionContext (reply_arrives s result) = sessionContext s @ [(Model, reply_of result)]
   \<and> llmRequests (reply_arrives s result) = llmRequests s
   \<and> ttsRequests (reply_arrives s result)
       = ttsRequests s @ [(reply_of result, agentVoiceId s)]"
  by (simp add: reply_arrives_def speak_begin_def appendToContext_def Let_def)

section \<open>Interruption and the delivery loop\<close>

lemma send_flagged_no_media:
  assumes "userSpeechDetected s"
  shows "\<exists>new. ws (sendAudioToTwilio s a) = ws s @ new \<and> filter is_media new = []"
proof (cases "isReady s \<and> truthy (streamSid s)")
  case False
  then show ?thesis by (simp add: send_unready)
next
  case True
  with assms show ?thesis by (simp add: send_ready_flagged)
qed

lemma loop_flagged_silent:
  "userSpeechDetected s \<Longrightarrow> ws (state_of (chunk_loop s b i)) = ws s"
  by (simp add: chunk_loop_stops)

lemma interruption_effect:
  "\<not> isAISpeaking (handleInterruption s) \<and> currentAudioChunks (handleInterruption s) = []
   \<and> ws (handleInterruption s) = ws s @ [Clear (streamSid s)]
   \<and> userSpeechDetected (handleInterruption s)"
  by (simp add: handleInterruption_def ws_send_def Let_def)

section \<open>The revision with the queue drain\<close>

lemma chunk_loop_p1_runs:
  "chunk_loop_p1 s b i = s\<lparr>ws := ws s @ map (Media (streamSid s)) (frames b i)\<rparr>"
proof (induction s b i rule: chunk_loop_p1.induct)
  case (1 s b i)
  show ?case
  proof (cases "i < length b")
    case True
    with 1 show ?thesis
      by (subst chunk_loop_p1.simps, subst frames.simps) (simp add: ws_send_def)
  next
    case False
    then show ?thesis
      by (subst chunk_loop_p1.simps, subst frames.simps) simp
  qed
qed

lemma send_p1_unready:
  "\<not> isReady s \<or> \<not> truthy (streamSid s) \<Longrightarrow>
   sendAudioToTwilio_p1 s a = s\<lparr>audioQueue := audioQueue s @ [a]\<rparr>"
  by (auto simp: sendAudioToTwilio_p1_def)

lemma send_p1_ready:
  "isReady s \<Longrightarrow> truthy (streamSid s) \<Longrightarrow>
   sendAudioToTwilio_p1 s a = s\<lparr>ws := ws s @ clip_messages (streamSid s) a\<rparr>"
  by (simp add: sendAudioToTwilio_p1_def chunk_loop_p1_runs clip_messages_def ws_send_def Let_def)

lemma drain_queue_p1_ready:
  "isReady s \<Longrightarrow> truthy (streamSid s) \<Longrightarrow> n = length (audioQueue s) - k \<Longrightarrow>
   drain_queue_p1 s k =
     Some (s\<lparr>ws := ws s @ concat (map (clip_messages (streamSid s)) (drop k (audioQueue s)))\<rparr>)"
proof (induction n arbitrary: s k)
  case 0
  then show ?case by (subst drain_queue_p1.simps) simp
next
  case (Suc n)
  then have k: "k < length (audioQueue s)" by simp
  define s1 where "s1 = s\<lparr>ws := ws s @ clip_messages (streamSid s) (audioQueue s ! k)\<rparr>"
  have step: "sendAudioToTwilio_p1 s (audioQueue s ! k) = s1"
    using Suc.prems by (simp add: send_p1_ready s1_def)
  have "drain_queue_p1 s1 (Suc k) =
     Some (s1\<lparr>ws := ws s1 @ concat (map (clip_messages (streamSid s1)) (drop (Suc k) (audioQueue s1)))\<rparr>)"
    using Suc.prems by (intro Suc.IH) (simp_all add: s1_def)
  moreover have "drop k (audioQueue s) = audioQueue s ! k # drop (Suc k) (audioQueue s)"
    using k by (simp add: Cons_nth_drop_Suc)
  ultimately show ?case
    using k by (subst drain_queue_p1.simps) (simp add: step, simp add: s1_def)
qed

lemma start_event_p1_drains:
  assumes "truthy sid"
  shows "\<exists>s'. start_event_p1 s sid = Some s' \<and> isReady s' \<and> streamSid s' = sid
          \<and> audioQueue s' = []
          \<and> ws s' = ws s @ concat (map (clip_messages sid) (audioQueue s))"
proof (cases "audioQueue s = []")
  case True
  then show ?thesis by (simp add: start_event_p1_def)
next
  case False
  define s1 where "s1 = s\<lparr>streamSid := sid, isReady := True\<rparr>"
  have "drain_queue_p1 s1 0 =
     Some (s1\<lparr>ws := ws s1 @ concat (map (clip_messages (streamSid s1)) (drop 0 (audioQueue s1)))\<rparr>)"
    using assms by (intro drain_queue_p1_ready [where n = "length (audioQueue s1)"]) (simp_all add: s1_def)
  with False show ?thesis
    by (simp add: start_event_p1_def Let_def s1_def)
qed

lemma speak_unready_no_media:
  assumes "\<not> isReady s \<or> \<not> truthy (streamSid s)"
  shows "\<exists>cs. ws (speakWithInterruption s text tts evs) = ws s @ cs \<and> filter is_media cs = []"
proof -
  define s2 where
    "s2 = s\<lparr>isAISpeaking := True, userSpeechDetected := False,
             ttsRequests := ttsRequests s @ [(text, agentVoiceId s)]\<rparr>"
  obtain cs where cs: "ws (during s2 evs) = ws s2 @ cs" "filter is_media cs = []"
    using during_ws by blast
  have r: "\<not> isReady (during s2 evs) \<or> \<not> truthy (streamSid (during s2 evs))"
    using during_keeps [of s2 evs] assms by (simp add: s2_def)
  have "ws (speakWithInterruption s text tts evs) = ws (during s2 evs)"
  proof (cases tts)
    case None
    then show ?thesis
      by (simp add: speakWithInterruption_def speak_begin_def speak_resume_def Let_def s2_def)
  next
    case (Some a)
    then show ?thesis
      using r by (simp add: speakWithInterruption_def speak_begin_def speak_resume_def
          Let_def s2_def send_unready)
  qed
  with cs show ?thesis by (simp add: s2_def)
qed

lemma on_transcript_unready_no_media:
  assumes "\<not> isReady s \<or> \<not> truthy (streamSid s)"
  shows "\<exists>new. ws (on_transcript s td aw) = ws s @ new \<and> filter is_media new = []"
proof (cases "transcript td")
  case None
  then show ?thesis by (simp add: on_transcript_def)
next
  case (Some t)
  show ?thesis
  proof (cases "trim t = []")
    case True
    with Some show ?thesis by (simp add: on_transcript_def)
  next
    case False
    show ?thesis
    proof (cases "is_final td")
      case False
      with Some \<open>trim t \<noteq> []\<close> show ?thesis
        by (simp add: on_transcript_def interim_transcript_def
            handleInterruption_def ws_send_def Let_def)
    next
      case True
      define s2 where
        "s2 = appendToContext (if silenceTimer s \<noteq> None then s\<lparr>silenceTimer := None\<rparr> else s) t User"
      define s3 where
        "s3 = s2\<lparr>llmRequests := llmRequests s2 @ [(sessionContext s2, agentPrompt s2)]\<rparr>"
      define s4 where
        "s4 = appendToContext (during s3 (llmDuring aw)) (reply_of (llmResult aw)) Model"
      have h: "on_transcript s td aw
                 = speakWithInterruption s4 (reply_of (llmResult aw)) (ttsResult aw) (ttsDuring aw)"
        using Some \<open>trim t \<noteq> []\<close> True
        by (simp add: on_transcript_def handleUserMessage_def callLLM_def callLLM_begin_def
            Let_def s2_def s3_def s4_def)
      obtain cs where cs: "ws (during s3 (llmDuring aw)) = ws s3 @ cs" "filter is_media cs = []"
        using during_ws by blast
      have w4: "ws s4 = ws s @ cs"
        using cs by (simp add: s4_def s3_def s2_def appendToContext_def)
      have "\<not> isReady s4 \<or> \<not> truthy (streamSid s4)"
        using during_keeps [of s3 "llmDuring aw"] assms
        by (simp add: s4_def s3_def s2_def appendToContext_def)
      then obtain ds where ds:
        "ws (speakWithInterruption s4 (reply_of (llmResult aw)) (ttsResult aw) (ttsDuring aw))
           = ws s4 @ ds" "filter is_media ds = []"
        using speak_unready_no_media by blast
      have "ws (on_transcript s td aw) = ws s @ (cs @ ds)"
        using ds w4 by (simp add: h)
      moreover have "filter is_media (cs @ ds) = []"
        using cs ds by simp
      ultimately show ?thesis by blast
    qed
  qed
qed

lemma fresh_fields:
  "\<not> isReady fresh_session" "streamSid fresh_session = None" "ws fresh_session = []"
  "audioQueue fresh_session = []"
  by (simp_all add: fresh_session_def createSession_def Let_def)

lemma queued_fields:
  "\<not> isReady queued_session" "streamSid queued_session = None" "ws queued_session = []"
  "audioQueue queued_session = [[77, 97, 110], [77]]"
  by (simp_all add: queued_session_def send_p1_unready fresh_fields)

lemma base64_M: "base64 [77] = lit ''TQ==''"
  by (simp add: lit_def sextet_def base64_alphabet_def pad_def)

lemma frames_short: "0 < length b \<Longrightarrow> length b \<le> 214 \<Longrightarrow> frames b 0 = [b]"
  by (subst frames.simps, subst frames.simps) (simp add: slice_def chunkSize_def)

text \<open>Without a \<open>streamSid\<close> in the start event the drain loop feeds the queue it walks and
  never ends.\<close>

lemma drain_queue_p1_unready:
  assumes "drain_queue_p1 s k = Some y"
  shows "isReady s \<and> truthy (streamSid s) \<or> length (audioQueue s) \<le> k"
  using assms
proof (rule drain_queue_p1.raw_induct
    [rotated, where P = "\<lambda>s k y. isReady s \<and> truthy (streamSid s) \<or> length (audioQueue s) \<le> k"])
  fix drain s k y
  assume IH: "\<And>s k y. drain s k = Some y \<Longrightarrow>
                isReady s \<and> truthy (streamSid s) \<or> length (audioQueue s) \<le> k"
    and eq: "(if k < length (audioQueue s)
              then drain (sendAudioToTwilio_p1 s (audioQueue s ! k)) (Suc k)
              else Some s) = Some y"
  show "isReady s \<and> truthy (streamSid s) \<or> length (audioQueue s) \<le> k"
  proof (rule ccontr)
    assume "\<not> (isReady s \<and> truthy (streamSid s) \<or> length (audioQueue s) \<le> k)"
    then have u: "\<not> isReady s \<or> \<not> truthy (streamSid s)" and k: "k < length (audioQueue s)"
      by auto
    define s1 where "s1 = sendAudioToTwilio_p1 s (audioQueue s ! k)"
    have s1: "s1 = s\<lparr>audioQueue := audioQueue s @ [audioQueue s ! k]\<rparr>"
      using u by (simp add: s1_def send_p1_unready)
    from eq k have "drain s1 (Suc k) = Some y"
      by (simp add: s1_def)
    then have "isReady s1 \<and> truthy (streamSid s1) \<or> length (audioQueue s1) \<le> Suc k"
      by (rule IH)
    with u k show False by (simp add: s1)
  qed
qed

lemma start_event_p1_hangs:
  assumes "\<not> truthy sid" and "audioQueue s \<noteq> []"
  shows "start_event_p1 s sid = None"
proof -
  define s1 where "s1 = s\<lparr>streamSid := sid, isReady := True\<rparr>"
  have "drain_queue_p1 s1 0 = None"
  proof (cases "drain_queue_p1 s1 0")
    case (Some y)
    then have "isReady s1 \<and> truthy (streamSid s1) \<or> length (audioQueue s1) \<le> 0"
      by (rule drain_queue_p1_unready)
    with assms show ?thesis by (simp add: s1_def)
  qed simp
  with assms show ?thesis
    by (simp add: start_event_p1_def Let_def s1_def)
qed

lemma length_base64: "length (base64 bs) = 4 * ((length bs + 2) div 3)"
proof (induction bs rule: base64.induct)
  case (4 a b c rest)
  have "(length (a # b # c # rest) + 2) div 3 = Suc ((length rest + 2) div 3)"
    by simp
  with 4 show ?case by (simp add: Let_def)
qed (simp_all add: Let_def)

lemma frames_500_bytes:
  "length bs = 500 \<Longrightarrow> length (frames (base64 bs) 0) = 4"
  by (simp add: length_frames length_base64)

section \<open>Claims about chunked delivery\<close>

text \<open>
  Claim C1.  When the session is ready (\<open>isReady\<close> set, \<open>streamSid\<close> known) and the
  caller-speech flag is not set, \<open>sendAudioToTwilio\<close> sends exactly
  \<open>\<lceil>L / 214\<rceil>\<close> media messages, where \<open>L\<close> is the length of the base64 encoding of the
  clip; each payload has at most 214 characters; the payloads concatenated in order are
  the base64 encoding; and they are followed by exactly one mark message named
  \<open>audio_complete\<close>, which is the last message sent.  The loop is synchronous, so the
  flag cannot change while it runs.
\<close>

theorem chunked_delivery_frames:
  assumes "isReady s" and "truthy (streamSid s)" and "\<not> userSpeechDetected s"
  shows "\<exists>ps. ws (sendAudioToTwilio s a) =
             ws s @ map (Media (streamSid s)) ps @ [Mark (streamSid s) audio_complete]
          \<and> int (length ps) = \<lceil>real (length (base64 a)) / 214\<rceil>
          \<and> (\<forall>p \<in> set ps. length p \<le> 214)
          \<and> concat ps = base64 a"
proof (intro exI conjI)
  show "ws (sendAudioToTwilio s a) =
          ws s @ map (Media (streamSid s)) (frames (base64 a) 0)
               @ [Mark (streamSid s) audio_complete]"
    using assms by (simp add: send_ready_clear clip_messages_def)
  show "int (length (frames (base64 a) 0)) = \<lceil>real (length (base64 a)) / 214\<rceil>"
    by (simp add: length_frames ceil214 [symmetric])
  show "\<forall>p \<in> set (frames (base64 a) 0). length p \<le> 214"
    using frames_bound by blast
  show "concat (frames (base64 a) 0) = base64 a"
    by (simp add: concat_frames)
qed

theorem chunked_delivery_frames_witness:
  "isReady started_session \<and> truthy (streamSid started_session)
   \<and> \<not> userSpeechDetected started_session
   \<and> (\<exists>ps. ws (sendAudioToTwilio started_session [77, 97, 110]) =
             map (Media (Some (lit ''MZ1''))) ps @ [Mark (Some (lit ''MZ1'')) audio_complete]
          \<and> length ps = 1
          \<and> (\<forall>p \<in> set ps. length p \<le> 214)
          \<and> concat ps = lit ''TWFu'')"
proof -
  have h1: "isReady started_session"
    and h2: "truthy (streamSid started_session)"
    and h3: "\<not> userSpeechDetected started_session"
    by (simp_all add: started_fields lit_nonempty)
  have b: "base64 [77, 97, 110] = lit ''TWFu''"
    by (simp add: lit_def sextet_def base64_alphabet_def)
  have l: "length (lit ''TWFu'') = 4"
    by (simp add: lit_def)
  show ?thesis
    using chunked_delivery_frames [OF h1 h2 h3, of "[77, 97, 110]", unfolded b l] h1 h2 h3
    by (simp add: started_fields)
qed

text \<open>
  Claim C2 says that a delivery sends exactly one mark message after it stops, also when
  it stops early.  The loop leaves \<open>sendAudioToTwilio\<close> by \<open>return\<close> when it finds the
  caller-speech flag set, so an aborted delivery sends no mark: with the flag set and a
  clip of three bytes, the socket has carried nothing before the call and nothing after.
\<close>

theorem abort_without_mark_counterexample:
  "isReady flagged_session \<and> truthy (streamSid flagged_session)
   \<and> userSpeechDetected flagged_session \<and> 0 < length (base64 [77, 97, 110])
   \<and> ws flagged_session = []
   \<and> ws (sendAudioToTwilio flagged_session [77, 97, 110]) = []
   \<and> length (filter is_mark (ws (sendAudioToTwilio flagged_session [77, 97, 110]))) \<noteq> 1"
proof -
  have b: "base64 [77, 97, 110] \<noteq> []"
    by (simp add: base64_Man lit_def)
  have "sendAudioToTwilio flagged_session [77, 97, 110] = flagged_session\<lparr>isAISpeaking := False\<rparr>"
    using b by (simp add: send_ready_flagged flagged_fields lit_nonempty)
  then show ?thesis
    using b by (simp add: flagged_fields lit_nonempty)
qed

text \<open>
  Claim C2, amended.  On a ready session, a delivery that is not aborted sends exactly
  one \<open>audio_complete\<close> mark, after its last frame.  A delivery that is aborted because
  the caller-speech flag is set when the loop is about to send a frame sends neither a
  frame nor a mark, and clears the speaking flag itself.
\<close>

theorem mark_unless_aborted:
  assumes "isReady s" and "truthy (streamSid s)"
  shows "(\<not> (userSpeechDetected s \<and> 0 < length (base64 a)) \<longrightarrow>
            (\<exists>ps new. ws (sendAudioToTwilio s a) = ws s @ new
                \<and> new = map (Media (streamSid s)) ps @ [Mark (streamSid s) audio_complete]
                \<and> length (filter is_mark new) = 1))
       \<and> (userSpeechDetected s \<and> 0 < length (base64 a) \<longrightarrow>
            ws (sendAudioToTwilio s a) = ws s
            \<and> \<not> isAISpeaking (sendAudioToTwilio s a))"
proof (cases "userSpeechDetected s")
  case False
  with assms have "ws (sendAudioToTwilio s a) = ws s @ clip_messages (streamSid s) a"
    by (simp add: send_ready_clear)
  with False show ?thesis
    by (auto simp: clip_messages_def filter_mark_media)
next
  case True
  show ?thesis
  proof (cases "base64 a = []")
    case True
    with \<open>userSpeechDetected s\<close> assms
    have "ws (sendAudioToTwilio s a) =
            ws s @ map (Media (streamSid s)) [] @ [Mark (streamSid s) audio_complete]"
      by (simp add: send_ready_flagged)
    then have "\<exists>ps. ws (sendAudioToTwilio s a) =
            ws s @ map (Media (streamSid s)) ps @ [Mark (streamSid s) audio_complete]"
      by (rule exI)
    with True show ?thesis by (simp add: filter_mark_media)
  next
    case False
    with \<open>userSpeechDetected s\<close> assms show ?thesis
      by (simp add: send_ready_flagged)
  qed
qed

theorem mark_unless_aborted_witness:
  "isReady started_session \<and> truthy (streamSid started_session)
   \<and> \<not> (userSpeechDetected started_session \<and> 0 < length (base64 [77, 97, 110]))
   \<and> (\<exists>ps new. ws (sendAudioToTwilio started_session [77, 97, 110]) = new
         \<and> new = map (Media (Some (lit ''MZ1''))) ps @ [Mark (Some (lit ''MZ1'')) audio_complete]
         \<and> length (filter is_mark new) = 1)
   \<and> isReady flagged_session \<and> truthy (streamSid flagged_session)
   \<and> userSpeechDetected flagged_session \<and> 0 < length (base64 [77, 97, 110])
   \<and> ws (sendAudioToTwilio flagged_session [77, 97, 110]) = []
   \<and> \<not> isAISpeaking (sendAudioToTwilio flagged_session [77, 97, 110])"
proof -
  have r1: "isReady started_session" and t1: "truthy (streamSid started_session)"
    and r2: "isReady flagged_session" and t2: "truthy (streamSid flagged_session)"
    by (simp_all add: started_fields flagged_fields lit_nonempty)
  have b: "0 < length (base64 [77, 97, 110])"
    by (simp add: base64_Man lit_def)
  show ?thesis
    using mark_unless_aborted [OF r1 t1, of "[77, 97, 110]"]
      mark_unless_aborted [OF r2 t2, of "[77, 97, 110]"] r1 t1 r2 t2 b
    by (simp add: started_fields flagged_fields)
qed

section \<open>Claim about interruption\<close>

text \<open>
  Claim C3 says that every interim transcript longer than 3 characters that arrives while
  the speaking flag is set interrupts the agent.  The handler first returns on a
  transcript that is empty after \<open>trim()\<close>, so an interim transcript of four spaces
  changes nothing: the speaking flag stays set, no clear message is sent and the
  caller-speech flag stays clear.
\<close>

theorem blank_interim_counterexample:
  "isAISpeaking speaking_session \<and> 3 < length [32, 32, 32, 32 :: 16 word]
   \<and> on_transcript speaking_session
        \<lparr>transcript = Some [32, 32, 32, 32], is_final = False\<rparr> failing_awaits
      = speaking_session
   \<and> isAISpeaking (on_transcript speaking_session
        \<lparr>transcript = Some [32, 32, 32, 32], is_final = False\<rparr> failing_awaits)
   \<and> \<not> userSpeechDetected (on_transcript speaking_session
        \<lparr>transcript = Some [32, 32, 32, 32], is_final = False\<rparr> failing_awaits)
   \<and> ws (on_transcript speaking_session
        \<lparr>transcript = Some [32, 32, 32, 32], is_final = False\<rparr> failing_awaits) = []"
proof -
  have "trim [32, 32, 32, 32] = []"
    by (simp add: trim_def js_whitespace_def)
  then have "on_transcript speaking_session
        \<lparr>transcript = Some [32, 32, 32, 32], is_final = False\<rparr> failing_awaits
      = speaking_session"
    by (simp add: on_transcript_def)
  then show ?thesis
    by (simp add: speaking_fields)
qed

text \<open>
  Claim C3, amended.  An interim transcript that is not blank after \<open>trim()\<close>, has more
  than 3 code units and arrives while the speaking flag is set makes the handler clear
  the speaking flag, empty \<open>currentAudioChunks\<close>, send exactly one clear message with the
  session's \<open>streamSid\<close>, and set the caller-speech flag.  In the resulting state the
  delivery loop sends nothing from any offset of any clip, and \<open>sendAudioToTwilio\<close>
  sends no media message.
\<close>

theorem interim_interrupts:
  assumes "\<not> is_final td" and "transcript td = Some t" and "trim t \<noteq> []"
    and "3 < length t" and "isAISpeaking s"
  shows "\<exists>s'. on_transcript s td aw = s'
          \<and> \<not> isAISpeaking s' \<and> currentAudioChunks s' = []
          \<and> ws s' = ws s @ [Clear (streamSid s)]
          \<and> userSpeechDetected s'
          \<and> (\<forall>b i. ws (state_of (chunk_loop s' b i)) = ws s')
          \<and> (\<forall>a. \<exists>new. ws (sendAudioToTwilio s' a) = ws s' @ new \<and> filter is_media new = [])"
proof -
  have h: "on_transcript s td aw = handleInterruption (s\<lparr>interimTranscript := t\<rparr>)"
    using assms by (simp add: on_transcript_def interim_transcript_def Let_def)
  have e: "\<not> isAISpeaking (on_transcript s td aw)"
    "currentAudioChunks (on_transcript s td aw) = []"
    "ws (on_transcript s td aw) = ws s @ [Clear (streamSid s)]"
    "userSpeechDetected (on_transcript s td aw)"
    using interruption_effect [of "s\<lparr>interimTranscript := t\<rparr>"] by (simp_all add: h)
  from e(4) have "\<forall>b i. ws (state_of (chunk_loop (on_transcript s td aw) b i))
                        = ws (on_transcript s td aw)"
    by (simp add: loop_flagged_silent)
  moreover from e(4) have "\<forall>a. \<exists>new. ws (sendAudioToTwilio (on_transcript s td aw) a)
                        = ws (on_transcript s td aw) @ new \<and> filter is_media new = []"
    using send_flagged_no_media by blast
  ultimately show ?thesis
    using e by blast
qed

theorem interim_interrupts_witness:
  "\<not> is_final \<lparr>transcript = Some (lit ''hello there''), is_final = False\<rparr>
   \<and> trim (lit ''hello there'') \<noteq> [] \<and> 3 < length (lit ''hello there'')
   \<and> isAISpeaking speaking_session
   \<and> (\<exists>s'. on_transcript speaking_session
              \<lparr>transcript = Some (lit ''hello there''), is_final = False\<rparr> failing_awaits = s'
          \<and> \<not> isAISpeaking s' \<and> currentAudioChunks s' = []
          \<and> ws s' = [Clear (Some (lit ''MZ1''))]
          \<and> userSpeechDetected s'
          \<and> ws (state_of (chunk_loop s' (lit ''TWFu'') 0)) = ws s'
          \<and> (\<exists>new. ws (sendAudioToTwilio s' [77, 97, 110]) = ws s' @ new
                \<and> filter is_media new = []))"
proof -
  have h1: "\<not> is_final \<lparr>transcript = Some (lit ''hello there''), is_final = False\<rparr>"
    by simp
  have h2: "transcript \<lparr>transcript = Some (lit ''hello there''), is_final = False\<rparr>
              = Some (lit ''hello there'')"
    by simp
  have h3: "trim (lit ''hello there'') \<noteq> []"
    by (rule trim_examples)
  have h4: "3 < length (lit ''hello there'')"
    by (simp add: lit_def)
  have h5: "isAISpeaking speaking_session"
    by (simp add: speaking_fields)
  show ?thesis
    using interim_interrupts [OF h1 h2 h3 h4 h5, of failing_awaits] h3 h4 h5
    by (auto simp: speaking_fields)
qed

section \<open>Claim about readiness\<close>

text \<open>
  Claim C4 says that every clip queued before readiness is delivered once the ready flag
  becomes true.  The start branch of the revision that drains the queue sets \<open>isReady\<close>
  whatever \<open>data.start.streamSid\<close> is.  When the start event carries no \<open>streamSid\<close>
  and two clips are queued, the flag becomes true, yet each \<open>sendAudioToTwilio\<close> of the
  drain loop finds \<open>streamSid\<close> unset and pushes the clip back onto the queue that the
  loop walks: nothing is sent and the branch never returns.
\<close>

theorem start_without_streamSid_counterexample:
  "audioQueue queued_session = [[77, 97, 110], [77]]
   \<and> ws queued_session = []
   \<and> isReady (queued_session\<lparr>streamSid := None, isReady := True\<rparr>)
   \<and> ws (sendAudioToTwilio_p1 (queued_session\<lparr>streamSid := None, isReady := True\<rparr>)
         [77, 97, 110]) = []
   \<and> audioQueue (sendAudioToTwilio_p1 (queued_session\<lparr>streamSid := None, isReady := True\<rparr>)
         [77, 97, 110]) = [[77, 97, 110], [77], [77, 97, 110]]
   \<and> start_event_p1 queued_session None = None"
proof -
  have "start_event_p1 queued_session None = None"
    by (rule start_event_p1_hangs) (simp_all add: queued_fields)
  then show ?thesis
    by (simp add: send_p1_unready queued_fields)
qed

text \<open>
  Claim C4, amended.  While \<open>isReady\<close> is false or \<open>streamSid\<close> is unset,
  \<open>sendAudioToTwilio\<close> (in both revisions) sends nothing and appends the clip to
  \<open>audioQueue\<close>, and the whole transcript handler sends no media message.  In the
  revision that creates the session before the start event, a start event that carries a
  \<open>streamSid\<close> makes the session ready and sends every queued clip, each as its frames
  followed by its mark, in the order of the queue, and leaves the queue empty.  (The
  other revision never reads the queue: its start branch itself creates the session and
  makes it ready at once, with an empty queue.)
\<close>

theorem queued_until_ready:
  "(\<not> isReady s \<or> \<not> truthy (streamSid s) \<longrightarrow>
      ws (sendAudioToTwilio s a) = ws s
      \<and> audioQueue (sendAudioToTwilio s a) = audioQueue s @ [a]
      \<and> (\<exists>new. ws (on_transcript s td aw) = ws s @ new \<and> filter is_media new = [])
      \<and> ws (sendAudioToTwilio_p1 s a) = ws s
      \<and> audioQueue (sendAudioToTwilio_p1 s a) = audioQueue s @ [a])
   \<and> (truthy sid \<longrightarrow>
      (\<exists>s'. start_event_p1 s sid = Some s' \<and> isReady s' \<and> streamSid s' = sid
          \<and> audioQueue s' = []
          \<and> ws s' = ws s @ concat (map (clip_messages sid) (audioQueue s))))"
proof (intro conjI impI)
  assume u: "\<not> isReady s \<or> \<not> truthy (streamSid s)"
  show "ws (sendAudioToTwilio s a) = ws s"
    using u by (simp add: send_unready)
  show "audioQueue (sendAudioToTwilio s a) = audioQueue s @ [a]"
    using u by (simp add: send_unready)
  show "\<exists>new. ws (on_transcript s td aw) = ws s @ new \<and> filter is_media new = []"
    using u by (rule on_transcript_unready_no_media)
  show "ws (sendAudioToTwilio_p1 s a) = ws s"
    using u by (simp add: send_p1_unready)
  show "audioQueue (sendAudioToTwilio_p1 s a) = audioQueue s @ [a]"
    using u by (simp add: send_p1_unready)
next
  assume "truthy sid"
  then show "\<exists>s'. start_event_p1 s sid = Some s' \<and> isReady s' \<and> streamSid s' = sid
          \<and> audioQueue s' = []
          \<and> ws s' = ws s @ concat (map (clip_messages sid) (audioQueue s))"
    by (rule start_event_p1_drains)
qed

theorem queued_until_ready_witness:
  "\<not> isReady queued_session
   \<and> truthy (Some (lit ''MZ1''))
   \<and> audioQueue queued_session = [[77, 97, 110], [77]]
   \<and> ws queued_session = []
   \<and> ws (sendAudioToTwilio queued_session [77]) = []
   \<and> audioQueue (sendAudioToTwilio queued_session [77]) = [[77, 97, 110], [77], [77]]
   \<and> (\<exists>s'. start_event_p1 queued_session (Some (lit ''MZ1'')) = Some s'
          \<and> audioQueue s' = []
          \<and> ws s' =
               [Media (Some (lit ''MZ1'')) (lit ''TWFu''), Mark (Some (lit ''MZ1'')) audio_complete,
                Media (Some (lit ''MZ1'')) (lit ''TQ==''), Mark (Some (lit ''MZ1'')) audio_complete])"
proof -
  have u: "\<not> isReady queued_session \<or> \<not> truthy (streamSid queued_session)"
    by (simp add: queued_fields)
  have t: "truthy (Some (lit ''MZ1''))"
    by (simp add: lit_nonempty)
  have f1: "frames (lit ''TWFu'') 0 = [lit ''TWFu'']"
    by (rule frames_short) (simp_all add: lit_def)
  have f2: "frames (lit ''TQ=='') 0 = [lit ''TQ=='']"
    by (rule frames_short) (simp_all add: lit_def)
  have c: "clip_messages (Some (lit ''MZ1'')) [77, 97, 110]
             @ clip_messages (Some (lit ''MZ1'')) [77] =
             [Media (Some (lit ''MZ1'')) (lit ''TWFu''), Mark (Some (lit ''MZ1'')) audio_complete,
              Media (Some (lit ''MZ1'')) (lit ''TQ==''), Mark (Some (lit ''MZ1'')) audio_complete]"
    by (simp add: clip_messages_def base64_Man base64_M f1 f2 del: base64.simps)
  show ?thesis
    using queued_until_ready
            [of queued_session "[77]" "\<lparr>transcript = None, is_final = False\<rparr>" failing_awaits
                "Some (lit ''MZ1'')"] u t
    by (auto simp: queued_fields c)
qed

section \<open>Claims about the conversation history\<close>

text \<open>
  Claim C5 says that for every sequence of final transcripts each one appends a caller
  turn followed by an agent turn, the agent turns in the order of the transcripts.  When
  a second final transcript arrives while the handler of the first waits for the
  generator, both caller turns are appended first; and when the generator answers the
  second request (made with both caller turns) before the first, the reply to the second
  transcript is appended before the reply to the first.
\<close>

theorem overlapping_finals_counterexample:
  "sessionContext
     (reply_arrives
        (reply_arrives
           (final_arrives (final_arrives started_session (lit ''One'')) (lit ''Two''))
           (Inr (lit ''reply to Two'')))
        (Inr (lit ''reply to One'')))
   = [(User, lit ''One''), (User, lit ''Two''),
      (Model, lit ''reply to Two''), (Model, lit ''reply to One'')]
   \<and> map fst (llmRequests
        (final_arrives (final_arrives started_session (lit ''One'')) (lit ''Two'')))
     = [[(User, lit ''One'')], [(User, lit ''One''), (User, lit ''Two'')]]"
  by (simp add: reply_arrives_effect final_arrives_effect reply_of_def started_fields)

text \<open>
  Claim C5, amended.  When final transcripts with non-blank text are handled one after
  the other, each run of the handler finishing before the next final transcript is
  taken, each of them appends one caller turn immediately followed by one agent turn (the
  generator's text, or the fixed string when the generator failed), so the history grows
  by these pairs in the order of the transcripts.
\<close>

theorem final_transcripts_in_order:
  assumes "\<forall>(td, aw) \<in> set evs. is_final td \<and> (\<exists>t. transcript td = Some t \<and> trim t \<noteq> [])"
  shows "sessionContext (on_transcripts s evs)
           = sessionContext s
             @ concat (map (\<lambda>(td, aw). [(User, the (transcript td)),
                                        (Model, reply_of (llmResult aw))]) evs)"
  using assms unfolding on_transcripts_def
proof (induction evs arbitrary: s)
  case Nil
  show ?case by simp
next
  case (Cons ev evs)
  obtain td aw where ev: "ev = (td, aw)" by (cases ev)
  from Cons.prems ev obtain t where t: "is_final td" "transcript td = Some t" "trim t \<noteq> []"
    by auto
  have step: "sessionContext (on_transcript s td aw)
                = sessionContext s @ [(User, t), (Model, reply_of (llmResult aw))]"
    using final_transcript_effect [OF t] by simp
  have rest: "\<forall>(td, aw) \<in> set evs. is_final td \<and> (\<exists>t. transcript td = Some t \<and> trim t \<noteq> [])"
    using Cons.prems by simp
  show ?case
    using Cons.IH [OF rest, of "on_transcript s td aw"] step t
    by (simp add: ev)
qed

theorem final_transcripts_in_order_witness:
  "is_final \<lparr>transcript = Some (lit ''Hi''), is_final = True\<rparr>
   \<and> trim (lit ''Hi'') \<noteq> []
   \<and> is_final \<lparr>transcript = Some (lit ''Yes''), is_final = True\<rparr>
   \<and> trim (lit ''Yes'') \<noteq> []
   \<and> sessionContext (on_transcripts started_session
         [(\<lparr>transcript = Some (lit ''Hi''), is_final = True\<rparr>, failing_awaits),
          (\<lparr>transcript = Some (lit ''Yes''), is_final = True\<rparr>, answering_awaits)])
       = [(User, lit ''Hi''), (Model, fallback_reply), (User, lit ''Yes''), (Model, lit ''Sure.'')]"
proof -
  have h: "\<forall>(td, aw) \<in> set [(\<lparr>transcript = Some (lit ''Hi''), is_final = True\<rparr>, failing_awaits),
                         (\<lparr>transcript = Some (lit ''Yes''), is_final = True\<rparr>, answering_awaits)].
       is_final td \<and> (\<exists>t. transcript td = Some t \<and> trim t \<noteq> [])"
    by (simp add: trim_examples)
  show ?thesis
    using final_transcripts_in_order [OF h, of started_session]
    by (simp add: started_fields reply_of_def failing_awaits_def answering_awaits_def
        trim_examples)
qed

text \<open>
  Claim C6.  An interim transcript leaves the conversation history and the list of
  requests to the response generator as they were, whatever its text.  A final transcript
  with non-blank text appends the caller turn and the agent turn and makes one request to
  the generator, with the history that ends in the new caller turn.
\<close>

theorem interim_never_generates:
  "(\<not> is_final td \<longrightarrow>
      sessionContext (on_transcript s td aw) = sessionContext s
      \<and> llmRequests (on_transcript s td aw) = llmRequests s)
   \<and> (is_final td \<and> transcript td = Some t \<and> trim t \<noteq> [] \<longrightarrow>
      sessionContext (on_transcript s td aw)
        = sessionContext s @ [(User, t), (Model, reply_of (llmResult aw))]
      \<and> llmRequests (on_transcript s td aw)
        = llmRequests s @ [(sessionContext s @ [(User, t)], agentPrompt s)])"
proof (intro conjI impI)
  assume nf: "\<not> is_final td"
  show "sessionContext (on_transcript s td aw) = sessionContext s"
    using nf interim_keeps by (simp add: on_transcript_def split: option.splits)
  show "llmRequests (on_transcript s td aw) = llmRequests s"
    using nf interim_keeps by (simp add: on_transcript_def split: option.splits)
next
  assume f: "is_final td \<and> transcript td = Some t \<and> trim t \<noteq> []"
  then show "sessionContext (on_transcript s td aw)
        = sessionContext s @ [(User, t), (Model, reply_of (llmResult aw))]"
    using final_transcript_effect [of td t s aw] by simp
  from f show "llmRequests (on_transcript s td aw)
        = llmRequests s @ [(sessionContext s @ [(User, t)], agentPrompt s)]"
    using final_transcript_effect [of td t s aw] by simp
qed

theorem interim_never_generates_witness:
  "\<not> is_final \<lparr>transcript = Some (lit ''hello there''), is_final = False\<rparr>
   \<and> sessionContext (on_transcript speaking_session
         \<lparr>transcript = Some (lit ''hello there''), is_final = False\<rparr> answering_awaits) = []
   \<and> llmRequests (on_transcript speaking_session
         \<lparr>transcript = Some (lit ''hello there''), is_final = False\<rparr> answering_awaits) = []
   \<and> is_final \<lparr>transcript = Some (lit ''Yes''), is_final = True\<rparr>
   \<and> trim (lit ''Yes'') \<noteq> []
   \<and> sessionContext (on_transcript speaking_session
         \<lparr>transcript = Some (lit ''Yes''), is_final = True\<rparr> answering_awaits)
       = [(User, lit ''Yes''), (Model, lit ''Sure.'')]
   \<and> llmRequests (on_transcript speaking_session
         \<lparr>transcript = Some (lit ''Yes''), is_final = True\<rparr> answering_awaits)
       = [([(User, lit ''Yes'')], lit ''You are a helpful AI assistant.'')]"
  using interim_never_generates
          [of "\<lparr>transcript = Some (lit ''hello there''), is_final = False\<rparr>"
              speaking_session answering_awaits "lit ''hello there''"]
        interim_never_generates
          [of "\<lparr>transcript = Some (lit ''Yes''), is_final = True\<rparr>"
              speaking_session answering_awaits "lit ''Yes''"]
  by (simp add: trim_examples speaking_fields reply_of_def answering_awaits_def)

text \<open>
  Claim C7.  When the generator raises for a final transcript with non-blank text, the
  agent turn appended after the caller turn is the fixed string
  \<open>I apologize, I'm having trouble processing that right now.\<close>, and \<open>synthesizeTTS\<close> is
  called with that string and the session's voice.  The same holds for the piece of the
  handler that runs when the generator's failure arrives, in whatever state \<open>s'\<close> the
  session is by then.
\<close>

theorem generator_failure_fallback:
  assumes "is_final td" and "transcript td = Some t" and "trim t \<noteq> []"
    and "llmResult aw = Inl err"
  shows "sessionContext (on_transcript s td aw)
           = sessionContext s @ [(User, t), (Model, fallback_reply)]
       \<and> ttsRequests (on_transcript s td aw)
           = ttsRequests s @ [(fallback_reply, agentVoiceId s)]
       \<and> sessionContext (reply_arrives s' (Inl err))
           = sessionContext s' @ [(Model, fallback_reply)]
       \<and> ttsRequests (reply_arrives s' (Inl err))
           = ttsRequests s' @ [(fallback_reply, agentVoiceId s')]"
  using final_transcript_effect [OF assms(1-3), of s aw] assms(4)
    reply_arrives_effect [of s' "Inl err"]
  by (simp add: reply_of_def)

theorem generator_failure_fallback_witness:
  "is_final \<lparr>transcript = Some (lit ''Hi''), is_final = True\<rparr>
   \<and> trim (lit ''Hi'') \<noteq> [] \<and> llmResult failing_awaits = Inl GenerateContentFailed
   \<and> sessionContext (on_transcript started_session
         \<lparr>transcript = Some (lit ''Hi''), is_final = True\<rparr> failing_awaits)
       = [(User, lit ''Hi''), (Model, fallback_reply)]
   \<and> ttsRequests (on_transcript started_session
         \<lparr>transcript = Some (lit ''Hi''), is_final = True\<rparr> failing_awaits)
       = [(fallback_reply, default_voice)]"
proof -
  have h1: "is_final \<lparr>transcript = Some (lit ''Hi''), is_final = True\<rparr>"
    by simp
  have h2: "transcript \<lparr>transcript = Some (lit ''Hi''), is_final = True\<rparr> = Some (lit ''Hi'')"
    by simp
  have h3: "trim (lit ''Hi'') \<noteq> []"
    by (rule trim_examples)
  have h4: "llmResult failing_awaits = Inl GenerateContentFailed"
    by (simp add: failing_awaits_def)
  show ?thesis
    using generator_failure_fallback [OF h1 h2 h3 h4, of started_session] h3 h4
    by (simp add: started_fields)
qed

section \<open>Claims about synthesis failure, the registry and inbound audio\<close>

text \<open>
  Claim C8.  When the synthesizer returns no audio, \<open>speakWithInterruption\<close> sends no
  media message and no mark message, whatever was handled while the synthesis was
  pending; it leaves the speaking flag cleared and attempts no delivery (nothing is
  queued either).  The piece of it that runs when the synthesizer's \<open>null\<close> arrives
  sends nothing at all, in whatever state \<open>s'\<close> the session is by then.
\<close>

theorem no_audio_no_delivery:
  "(\<exists>new. ws (speakWithInterruption s text None evs) = ws s @ new
      \<and> filter is_media new = [] \<and> filter is_mark new = []
      \<and> \<not> isAISpeaking (speakWithInterruption s text None evs)
      \<and> audioQueue (speakWithInterruption s text None evs) = audioQueue s)
   \<and> ws (speak_resume s' None) = ws s'
   \<and> \<not> isAISpeaking (speak_resume s' None)
   \<and> audioQueue (speak_resume s' None) = audioQueue s'"
proof -
  define s2 where
    "s2 = s\<lparr>isAISpeaking := True, userSpeechDetected := False,
             ttsRequests := ttsRequests s @ [(text, agentVoiceId s)]\<rparr>"
  have sp: "speakWithInterruption s text None evs = (during s2 evs)\<lparr>isAISpeaking := False\<rparr>"
    by (simp add: speakWithInterruption_def speak_begin_def speak_resume_def s2_def Let_def)
  obtain cs where cs: "ws (during s2 evs) = ws s2 @ cs"
    "filter is_media cs = []" "filter is_mark cs = []"
    using during_ws by blast
  have "ws (speakWithInterruption s text None evs) = ws s @ cs"
    using cs by (simp add: sp s2_def)
  moreover have "audioQueue (during s2 evs) = audioQueue s"
    using during_keeps [of s2 evs] by (simp add: s2_def)
  ultimately show ?thesis
    using cs by (simp add: sp speak_resume_def)
qed

theorem no_audio_no_delivery_witness:
  "(\<exists>new. ws (speakWithInterruption started_session (lit ''Hi'') None
               [InterimEvent (Some (lit ''hello there''))]) = ws started_session @ new
      \<and> filter is_media new = [] \<and> filter is_mark new = []
      \<and> \<not> isAISpeaking (speakWithInterruption started_session (lit ''Hi'') None
               [InterimEvent (Some (lit ''hello there''))])
      \<and> audioQueue (speakWithInterruption started_session (lit ''Hi'') None
               [InterimEvent (Some (lit ''hello there''))]) = audioQueue started_session)
   \<and> ws (speak_resume speaking_session None) = ws speaking_session
   \<and> \<not> isAISpeaking (speak_resume speaking_session None)
   \<and> audioQueue (speak_resume speaking_session None) = audioQueue speaking_session"
  by (rule no_audio_no_delivery)

text \<open>
  Claim C9.  After \<open>endSession\<close> the session is no longer in the registry, and a second
  \<open>endSession\<close> for the same call returns the registry as it was and makes no call on
  any resource.
\<close>

theorem endSession_twice:
  "fst (endSession sessions cid) cid = None
   \<and> endSession (fst (endSession sessions cid)) cid = (fst (endSession sessions cid), [])"
proof (cases "sessions cid")
  case None
  then show ?thesis by (simp add: endSession_def)
next
  case (Some session)
  then have "fst (endSession sessions cid) = sessions(cid := None)"
    by (simp add: endSession_def)
  then show ?thesis by (simp add: endSession_def)
qed

theorem endSession_twice_witness:
  "fst (endSession (snd (createSession Map.empty (lit ''CA1'') [] None [])) (lit ''CA1''))
     (lit ''CA1'') = None
   \<and> endSession
        (fst (endSession (snd (createSession Map.empty (lit ''CA1'') [] None [])) (lit ''CA1'')))
        (lit ''CA1'')
      = (fst (endSession (snd (createSession Map.empty (lit ''CA1'') [] None [])) (lit ''CA1'')),
         [])"
  by (rule endSession_twice)

text \<open>
  Claim C10.  A media event with a payload that decodes to a non-empty buffer, handled
  while the session has a recognizer stream, forwards the buffer and sets the
  caller-speech flag, whether or not the agent is speaking and without any threshold.
  A delivery to the ready session started in that state is aborted before its first frame.
\<close>

theorem media_sets_speech_flag:
  assumes "sttStream s = Some sent" and "truthy payload" and "audioBuffer \<noteq> []"
  shows "\<exists>s'. ws_message_media (Some s) payload audioBuffer = Some s'
          \<and> userSpeechDetected s'
          \<and> sttStream s' = Some (sent @ [audioBuffer])
          \<and> (\<forall>a. isReady s \<and> truthy (streamSid s) \<and> 0 < length (base64 a) \<longrightarrow>
                 ws (sendAudioToTwilio s' a) = ws s')"
proof -
  define s' where "s' = s\<lparr>sttStream := Some (sent @ [audioBuffer]), userSpeechDetected := True\<rparr>"
  have "ws_message_media (Some s) payload audioBuffer = Some s'"
    using assms by (simp add: ws_message_media_def media_event_def s'_def)
  moreover have "userSpeechDetected s'" "sttStream s' = Some (sent @ [audioBuffer])"
    by (simp_all add: s'_def)
  moreover have "\<forall>a. isReady s \<and> truthy (streamSid s) \<and> 0 < length (base64 a) \<longrightarrow>
                 ws (sendAudioToTwilio s' a) = ws s'"
    by (simp add: send_ready_flagged s'_def)
  ultimately show ?thesis by blast
qed

theorem media_sets_speech_flag_witness:
  "sttStream speaking_session = Some [] \<and> truthy (Some (lit ''/w=='')) \<and> [255 :: 8 word] \<noteq> []
   \<and> isAISpeaking speaking_session
   \<and> isReady speaking_session \<and> truthy (streamSid speaking_session)
   \<and> 0 < length (base64 [77, 97, 110])
   \<and> (\<exists>s'. ws_message_media (Some speaking_session) (Some (lit ''/w=='')) [255] = Some s'
          \<and> userSpeechDetected s' \<and> sttStream s' = Some [[255]]
          \<and> ws (sendAudioToTwilio s' [77, 97, 110]) = ws s')"
proof -
  have h1: "sttStream speaking_session = Some []"
    by (simp add: speaking_session_def started_fields)
  have h2: "truthy (Some (lit ''/w==''))"
    by (simp add: lit_def)
  have h3: "[255 :: 8 word] \<noteq> []"
    by simp
  have h4: "isAISpeaking speaking_session" "isReady speaking_session"
    "truthy (streamSid speaking_session)"
    by (simp_all add: speaking_session_def started_fields lit_nonempty)
  have h5: "0 < length (base64 [77, 97, 110])"
    by (simp add: base64_Man lit_def)
  obtain s' where s':
    "ws_message_media (Some speaking_session) (Some (lit ''/w=='')) [255] = Some s'"
    "userSpeechDetected s'" "sttStream s' = Some ([] @ [[255]])"
    "\<forall>a. isReady speaking_session \<and> truthy (streamSid speaking_session)
           \<and> 0 < length (base64 a) \<longrightarrow> ws (sendAudioToTwilio s' a) = ws s'"
    using media_sets_speech_flag [OF h1 h2 h3] by blast
  from s'(4) h4 h5 have "ws (sendAudioToTwilio s' [77, 97, 110]) = ws s'"
    by blast
  with s' h1 h2 h4 h5 show ?thesis by auto
qed

end
